theory Spec2Isabelle
  imports Main "HOL-Library.Word"
begin

section \<open>Go strings: bytes, runes and the range loop\<close>

text \<open>
  A Go string is a sequence of bytes: \<open>string\<close> (a \<open>char list\<close>) with \<open>length\<close> for
  \<open>len\<close>. A \<open>for _, c := range code\<close> loop does not visit bytes but runes: at each
  position it decodes one UTF-8 sequence, yields its code point and advances by its width;
  a byte that starts no well-formed sequence yields \<open>RuneError\<close> and advances by one.
  \<open>DecodeRuneInString\<close> is that decoding step (package unicode/utf8), with the byte
  ranges of its table written out.
\<close>

type_synonym rune = nat

definition RuneError :: rune where
  "RuneError = 65533"

fun DecodeRuneInString :: "string \<Rightarrow> rune \<times> nat" where
  "DecodeRuneInString [] = (RuneError, 0)"
| "DecodeRuneInString (c0 # rest) =
     (let s0 = (of_char c0 :: nat) in
      if s0 < 128 then (s0, 1)
      else if s0 < 194 \<or> 244 < s0 then (RuneError, 1)
      else
        let sz = (if s0 < 224 then 2 else if s0 < 240 then 3 else (4::nat));
            lo = (if s0 = 224 then 160 else if s0 = 240 then 144 else (128::nat));
            hi = (if s0 = 237 then 159 else if s0 = 244 then 143 else (191::nat))
        in
        if length (c0 # rest) < sz then (RuneError, 1)
        else
          let s1 = (of_char (rest ! 0) :: nat) in
          if s1 < lo \<or> hi < s1 then (RuneError, 1)
          else if sz \<le> 2 then ((s0 mod 32) * 64 + s1 mod 64, 2)
          else
            let s2 = (of_char (rest ! 1) :: nat) in
            if s2 < 128 \<or> 191 < s2 then (RuneError, 1)
            else if sz \<le> 3 then ((s0 mod 16) * 4096 + (s1 mod 64) * 64 + s2 mod 64, 3)
            else
              let s3 = (of_char (rest ! 2) :: nat) in
              if s3 < 128 \<or> 191 < s3 then (RuneError, 1)
              else ((s0 mod 8) * 262144 + (s1 mod 64) * 4096 + (s2 mod 64) * 64 + s3 mod 64, 4))"

text \<open>
  The runes a range loop over \<open>s\<close> yields, in order. The decoded width is at least one on
  a non-empty string, so the rest of the string is \<open>drop (w - 1)\<close> of the tail.
\<close>

function range_runes :: "string \<Rightarrow> rune list" where
  "range_runes [] = []"
| "range_runes (c # cs) =
     (case DecodeRuneInString (c # cs) of (r, w) \<Rightarrow> r # range_runes (drop (w - 1) cs))"
  by pat_completeness auto
termination
  by (relation "measure length") auto

text \<open>
  \<open>strings.ContainsRune(s, r)\<close>: whether the code point \<open>r\<close> occurs in \<open>s\<close>.
\<close>

definition ContainsRune :: "string \<Rightarrow> rune \<Rightarrow> bool" where
  "ContainsRune s r = (r \<in> set (range_runes s))"

section \<open>Errors\<close>

text \<open>
  The source builds its errors with \<open>fmt.Errorf\<close>; each message is a constructor here,
  with the wrapped error (\<open>%w\<close>) as its argument. The last group are the errors of the
  collaborators: the random reader, the database driver, the Redis client, and a runtime
  panic.
\<close>

datatype error =
    ErrInvalidCustomCode        \<comment> \<open>"invalid custom code"\<close>
  | ErrCustomCodeInUse          \<comment> \<open>"custom code already in use"\<close>
  | ErrGenerate error           \<comment> \<open>"failed to generate short code: %w"\<close>
  | ErrNoUniqueCode             \<comment> \<open>"failed to generate unique short code"\<close>
  | ErrCreateURL error          \<comment> \<open>"failed to create URL: %w"\<close>
  | ErrNotFound string          \<comment> \<open>"URL with short code %s not found"\<close>
  | ErrFindURL error            \<comment> \<open>"error finding URL: %w"\<close>
  | ErrExpired                  \<comment> \<open>"URL has expired"\<close>
  | ErrKeyNotFound              \<comment> \<open>"key not found"\<close>
  | ErrGetValue error           \<comment> \<open>"failed to get value: %w"\<close>
  | ErrRandReader
  | ErrDatabase
  | ErrUniqueViolation
  | ErrRedis
  | Panic

section \<open>pkg/shotener: the code generator\<close>

definition DefaultLength :: int where
  "DefaultLength = 6"

definition CharSet :: string where
  "CharSet = ''abcdefghijklmnopqrstuvwxyzABCDEFGHIJKLMNOPQRSTUVWXYZ0123456789''"

record Shortener =
  length' :: int

definition NewShortener :: "int \<Rightarrow> Shortener" where
  "NewShortener len = \<lparr> length' = (if len \<le> 0 then DefaultLength else len) \<rparr>"

text \<open>
  The loop of \<open>IsValidCustomCode\<close>: \<open>for _, c := range code\<close> with its early
  \<open>return false\<close> at the first rune outside \<open>CharSet\<close>.
\<close>

function valid_runes :: "string \<Rightarrow> bool" where
  "valid_runes [] = True"
| "valid_runes (c # cs) =
     (case DecodeRuneInString (c # cs) of (r, w) \<Rightarrow>
        if \<not> ContainsRune CharSet r then False else valid_runes (drop (w - 1) cs))"
  by pat_completeness auto
termination
  by (relation "measure length") auto

definition IsValidCustomCode :: "Shortener \<Rightarrow> string \<Rightarrow> bool" where
  "IsValidCustomCode s code =
     (if length code < 3 \<or> length code > 20 then False else valid_runes code)"

text \<open>
  \<open>crypto/rand\<close> is a collaborator. The reader is the list of the outcomes of its
  coming draws: \<open>None\<close> where the reader fails, \<open>Some v\<close> where it delivers entropy
  \<open>v\<close>; an exhausted list fails. \<open>rand.Int(rand.Reader, bound)\<close> returns a value below
  \<open>bound\<close> or the reader's error.
\<close>

type_synonym reader = "nat option list"

definition rand_Int :: "reader \<Rightarrow> nat \<Rightarrow> (error + nat) \<times> reader" where
  "rand_Int rd bound =
     (case rd of
        [] \<Rightarrow> (Inl ErrRandReader, [])
      | None # rd' \<Rightarrow> (Inl ErrRandReader, rd')
      | Some v # rd' \<Rightarrow> (Inr (v mod bound), rd'))"

text \<open>
  The loop of \<open>generateRandomString\<close>, from index \<open>i\<close> up to \<open>n\<close>, over the byte
  slice \<open>result\<close>. Indexing \<open>CharSet\<close> or \<open>result\<close> out of range is a panic.
\<close>

function gen_loop :: "nat \<Rightarrow> nat \<Rightarrow> string \<Rightarrow> reader \<Rightarrow> (error + string) \<times> reader" where
  "gen_loop i n result rd =
     (if i < n then
        (case rand_Int rd (length CharSet) of
           (Inl err, rd') \<Rightarrow> (Inl err, rd')
         | (Inr randomIndex, rd') \<Rightarrow>
             if randomIndex < length CharSet \<and> i < length result
             then gen_loop (i + 1) n (result[i := CharSet ! randomIndex]) rd'
             else (Inl Panic, rd'))
      else (Inr result, rd))"
  by pat_completeness auto
termination
  by (relation "measure (\<lambda>(i, n, result, rd). n - i)") auto

definition generateRandomString :: "int \<Rightarrow> reader \<Rightarrow> (error + string) \<times> reader" where
  "generateRandomString len rd =
     (if len < 0 then (Inl Panic, rd)
      else gen_loop 0 (nat len) (replicate (nat len) (CHR 0x00)) rd)"

definition Generate :: "Shortener \<Rightarrow> reader \<Rightarrow> (error + string) \<times> reader" where
  "Generate s rd = generateRandomString (length' s) rd"

section \<open>internal/model\<close>

text \<open>
  A \<open>time.Time\<close> is an instant in nanoseconds, a \<open>time.Duration\<close> a signed 64-bit
  count of nanoseconds. \<open>t.Sub(u)\<close> saturates at the ends of that range, and
  \<open>time.Until(t)\<close> is \<open>t.Sub(time.Now())\<close>; the clock reading is the parameter
  \<open>now\<close> of every operation that reads it. A call of the service that reads the clock
  more than once (in the lookup's expiry check, at the insert, in \<open>time.Until\<close>) is
  taken at one reading.
\<close>

type_synonym time = int
type_synonym duration = int

definition maxDuration :: duration where
  "maxDuration = 2 ^ 63 - 1"

definition minDuration :: duration where
  "minDuration = - (2 ^ 63)"

definition time_Sub :: "time \<Rightarrow> time \<Rightarrow> duration" where
  "time_Sub t u =
     (let d = t - u in
      if d > maxDuration then maxDuration else if d < minDuration then minDuration else d)"

definition time_Until :: "time \<Rightarrow> time \<Rightarrow> duration" where
  "time_Until t now = time_Sub t now"

definition Hour :: duration where
  "Hour = 3600 * 1000000000"

text \<open>
  \<open>ID\<close> is a Go \<open>uint\<close> and \<open>VisitCount\<close> an \<open>int64\<close>: 64-bit words, so that the
  conversion \<open>uint(url.VisitCount)\<close> keeps the bits. A nil \<open>*time.Time\<close> is \<open>None\<close>;
  \<open>DeletedAt\<close> is gorm's soft-delete column, \<open>None\<close> while the row is live.
\<close>

record URL =
  ID :: "64 word"
  OriginalURL :: string
  ShortCode :: string
  VisitCount :: "64 word"
  ExpiresAt :: "time option"
  CreatedByIP :: string
  CreatedAt :: time
  UpdatedAt :: time
  DeletedAt :: "time option"

record URLVisit =
  visit_ID :: "64 word"
  URLID :: "64 word"
  IP :: string
  UserAgent :: string
  Referer :: string
  visit_CreatedAt :: time

record CreateURLRequest =
  req_OriginalURL :: string
  req_ExpiresAt :: "time option"
  CustomCode :: string

record CreateURLResponse =
  ShortURL :: string
  resp_OriginalURL :: string
  resp_ShortCode :: string
  resp_ExpiresAt :: "time option"
  resp_CreatedAt :: time

record GetURLStatsResponse =
  stats_ShortURL :: string
  stats_OriginalURL :: string
  stats_VisitCount :: "64 word"
  stats_CreatedAt :: time
  stats_ExpiresAt :: "time option"

section \<open>internal/repository: the durable store\<close>

text \<open>
  The database behind gorm is a collaborator. Its state is the two tables, rows in
  primary-key order, the next values of the two id sequences, and whether the connection
  works: with \<open>db_up = False\<close> every statement returns the driver's error and changes
  nothing. The column tags of \<open>model.URL\<close> give the constraints an insert checks: the unique
  index on \<open>short_code\<close> (over all rows, soft-deleted ones too) and the \<open>varchar\<close>
  widths. Every query, update and delete through gorm skips soft-deleted rows.
\<close>

record store =
  urls :: "URL list"
  url_visits :: "URLVisit list"
  next_url_id :: "64 word"
  next_visit_id :: "64 word"
  db_up :: bool

definition live :: "URL \<Rightarrow> bool" where
  "live u = (DeletedAt u = None)"

definition Create :: "store \<Rightarrow> time \<Rightarrow> URL \<Rightarrow> (error + URL) \<times> store" where
  "Create st now url =
     (if \<not> db_up st then (Inl ErrDatabase, st)
      else if length (ShortCode url) > 20 \<or> length (CreatedByIP url) > 45
        then (Inl ErrDatabase, st)
      else if ShortCode url \<in> set (map ShortCode (urls st)) then (Inl ErrUniqueViolation, st)
      else
        let url' = url\<lparr> ID := next_url_id st, CreatedAt := now, UpdatedAt := now \<rparr>
        in (Inr url', st\<lparr> urls := urls st @ [url'], next_url_id := next_url_id st + 1 \<rparr>))"

definition FindByShortCode :: "store \<Rightarrow> time \<Rightarrow> string \<Rightarrow> error + URL" where
  "FindByShortCode st now shortCode =
     (if \<not> db_up st then Inl (ErrFindURL ErrDatabase)
      else
        case find (\<lambda>u. ShortCode u = shortCode \<and> live u) (urls st) of
          None \<Rightarrow> Inl (ErrNotFound shortCode)
        | Some url \<Rightarrow>
            (case ExpiresAt url of
               None \<Rightarrow> Inr url
             | Some e \<Rightarrow> if e < now then Inl ErrExpired else Inr url))"

text \<open>
  \<open>UPDATE urls SET visit_count = visit_count + 1 WHERE id = ?\<close>, evaluated by the
  database on the row itself. (At the top of the \<open>bigint\<close> range the database raises
  an error where the word addition here wraps; nothing below counts that far.)
\<close>

definition IncrementVisitCount :: "store \<Rightarrow> 64 word \<Rightarrow> error option \<times> store" where
  "IncrementVisitCount st id' =
     (if \<not> db_up st then (Some ErrDatabase, st)
      else (None, st\<lparr> urls :=
              map (\<lambda>u. if ID u = id' \<and> live u then u\<lparr> VisitCount := VisitCount u + 1 \<rparr> else u)
                (urls st) \<rparr>))"

definition CreateVisit :: "store \<Rightarrow> time \<Rightarrow> URLVisit \<Rightarrow> error option \<times> store" where
  "CreateVisit st now visit =
     (if \<not> db_up st then (Some ErrDatabase, st)
      else
        let visit' = visit\<lparr> visit_ID := next_visit_id st, visit_CreatedAt := now \<rparr>
        in (None, st\<lparr> url_visits := url_visits st @ [visit'],
                       next_visit_id := next_visit_id st + 1 \<rparr>))"

text \<open>
  \<open>Where("expires_at < ? AND expires_at IS NOT NULL", time.Now()).Delete(&model.URL{})\<close>:
  the rows the condition selects, and the delete marks them; the result is
  \<open>RowsAffected\<close> and \<open>Error\<close>.
\<close>

definition expired_row :: "time \<Rightarrow> URL \<Rightarrow> bool" where
  "expired_row now u = (case ExpiresAt u of None \<Rightarrow> False | Some e \<Rightarrow> e < now)"

definition DeleteExpired :: "store \<Rightarrow> time \<Rightarrow> (int \<times> error option) \<times> store" where
  "DeleteExpired st now =
     (if \<not> db_up st then ((0, Some ErrDatabase), st)
      else
        ((int (length (filter (\<lambda>u. live u \<and> expired_row now u) (urls st))), None),
         st\<lparr> urls :=
              map (\<lambda>u. if live u \<and> expired_row now u then u\<lparr> DeletedAt := Some now \<rparr> else u)
                (urls st) \<rparr>))"

section \<open>pkg/cache: the Redis client\<close>

text \<open>
  Redis is a collaborator: a map from key to the value and the time-to-live it was stored
  with, and whether the server answers. An entry stays until it is written again: the
  server dropping an entry whose time-to-live has run out is a step of the environment,
  between calls. \<open>Set\<close> is called with a string value only, the first case of its type
  switch.
\<close>

record RedisClient =
  entries :: "string \<rightharpoonup> string \<times> duration"
  redis_up :: bool

definition Set' :: "RedisClient \<Rightarrow> string \<Rightarrow> string \<Rightarrow> duration \<Rightarrow> error option \<times> RedisClient" where
  "Set' r key val expiration =
     (if \<not> redis_up r then (Some ErrRedis, r)
      else (None, r\<lparr> entries := (entries r)(key \<mapsto> (val, expiration)) \<rparr>))"

definition Get :: "RedisClient \<Rightarrow> string \<Rightarrow> error + string" where
  "Get r key =
     (if \<not> redis_up r then Inl (ErrGetValue ErrRedis)
      else case entries r key of
             None \<Rightarrow> Inl ErrKeyNotFound
           | Some (val, ttl) \<Rightarrow> Inr val)"

definition SetWithTTL :: "RedisClient \<Rightarrow> string \<Rightarrow> string \<Rightarrow> duration \<Rightarrow> error option \<times> RedisClient" where
  "SetWithTTL r key val ttl = Set' r key val ttl"

section \<open>internal/service: the resolution service\<close>

definition DefaultCacheTTL :: duration where
  "DefaultCacheTTL = 24 * Hour"

definition CacheKeyPrefix :: string where
  "CacheKeyPrefix = ''url:''"

text \<open>
  A \<open>go\<close> statement starts work that outlives the call: the call returns with the
  goroutine recorded in the world, and \<open>run_goroutine\<close> is its later execution. (Go may
  also run a goroutine before the call that started it returns; the schedule taken here
  is the one where it runs after.)
\<close>

datatype goroutine =
    GoIncrementVisitCount "64 word"
  | GoRecordVisit "64 word" string string string

text \<open>
  \<open>URLServiceImpl\<close> holds its shortener and domain name, and pointers to the repository
  and the cache, which are shared: they are the \<open>world\<close> every operation takes and
  returns, with the random reader and the goroutines started so far.
\<close>

record URLServiceImpl =
  shortener :: Shortener
  domainName :: string

record world =
  urlRepo :: store
  cache :: RedisClient
  rand_Reader :: reader
  goroutines :: "goroutine list"

text \<open>
  The generation loop of \<open>CreateShortURL\<close>, \<open>for i := 0; i < 5; i++\<close>, with the
  variable \<open>shortCode\<close> it assigns: an error of the lookup leaves the loop with the
  candidate, a found record at \<open>i = 4\<close> returns the error, a found record before that
  goes round again.
\<close>

function create_loop ::
  "Shortener \<Rightarrow> store \<Rightarrow> time \<Rightarrow> nat \<Rightarrow> string \<Rightarrow> reader \<Rightarrow> (error + string) \<times> reader" where
  "create_loop s st now i shortCode rd =
     (if i < 5 then
        (case Generate s rd of
           (Inl err, rd') \<Rightarrow> (Inl (ErrGenerate err), rd')
         | (Inr code, rd') \<Rightarrow>
             (case FindByShortCode st now code of
                Inl err \<Rightarrow> (Inr code, rd')
              | Inr found \<Rightarrow>
                  if i = 4 then (Inl ErrNoUniqueCode, rd')
                  else create_loop s st now (i + 1) code rd'))
      else (Inr shortCode, rd))"
  by pat_completeness auto
termination
  by (relation "measure (\<lambda>(s, st, now, i, shortCode, rd). 5 - i)") auto

text \<open>
  For the statements about the loop: the codes that \<open>n\<close> successive calls of
  \<open>Generate\<close> return, up to the first call that fails, and the reader they leave.
\<close>

fun candidates :: "Shortener \<Rightarrow> reader \<Rightarrow> nat \<Rightarrow> string list \<times> reader" where
  "candidates s rd 0 = ([], rd)"
| "candidates s rd (Suc n) =
     (case Generate s rd of
        (Inl err, rd') \<Rightarrow> ([], rd')
      | (Inr code, rd') \<Rightarrow>
          (case candidates s rd' n of (codes, rd'') \<Rightarrow> (code # codes, rd'')))"

text \<open>The first part of \<open>CreateShortURL\<close>: the short code, custom or generated.\<close>

definition CreateShortURL_code ::
  "URLServiceImpl \<Rightarrow> world \<Rightarrow> time \<Rightarrow> CreateURLRequest \<Rightarrow> (error + string) \<times> world" where
  "CreateShortURL_code svc w now req =
     (if CustomCode req \<noteq> [] then
        (if \<not> IsValidCustomCode (shortener svc) (CustomCode req)
         then (Inl ErrInvalidCustomCode, w)
         else
           case FindByShortCode (urlRepo w) now (CustomCode req) of
             Inl err \<Rightarrow> (Inl ErrCustomCodeInUse, w)
           | Inr found \<Rightarrow> (Inr (CustomCode req), w))
      else
        case create_loop (shortener svc) (urlRepo w) now 0 [] (rand_Reader w) of
          (res, rd') \<Rightarrow> (res, w\<lparr> rand_Reader := rd' \<rparr>))"

text \<open>
  The second part: the insert, the cache entry with its time-to-live, the response. An
  error of the cache write is printed and dropped.
\<close>

definition CreateShortURL_store ::
  "URLServiceImpl \<Rightarrow> world \<Rightarrow> time \<Rightarrow> CreateURLRequest \<Rightarrow> string \<Rightarrow> string
     \<Rightarrow> (error + CreateURLResponse) \<times> world" where
  "CreateShortURL_store svc w now req ip shortCode =
     (let url = \<lparr> ID = 0, OriginalURL = req_OriginalURL req, ShortCode = shortCode,
                  VisitCount = 0, ExpiresAt = req_ExpiresAt req, CreatedByIP = ip,
                  CreatedAt = 0, UpdatedAt = 0, DeletedAt = None \<rparr>
      in
      case Create (urlRepo w) now url of
        (Inl err, st') \<Rightarrow> (Inl (ErrCreateURL err), w\<lparr> urlRepo := st' \<rparr>)
      | (Inr url', st') \<Rightarrow>
          let cacheKey = CacheKeyPrefix @ shortCode;
              cacheTTL =
                (case ExpiresAt url' of
                   None \<Rightarrow> DefaultCacheTTL
                 | Some e \<Rightarrow>
                     let expiryTime = time_Until e now in
                     if expiryTime > 0 \<and> expiryTime < DefaultCacheTTL then expiryTime
                     else DefaultCacheTTL);
              cache' = snd (SetWithTTL (cache w) cacheKey (OriginalURL url') cacheTTL);
              shortURL = domainName svc @ ''/'' @ shortCode
          in (Inr \<lparr> ShortURL = shortURL, resp_OriginalURL = OriginalURL url',
                     resp_ShortCode = shortCode, resp_ExpiresAt = ExpiresAt url',
                     resp_CreatedAt = CreatedAt url' \<rparr>,
              w\<lparr> urlRepo := st', cache := cache' \<rparr>))"

definition CreateShortURL ::
  "URLServiceImpl \<Rightarrow> world \<Rightarrow> time \<Rightarrow> CreateURLRequest \<Rightarrow> string
     \<Rightarrow> (error + CreateURLResponse) \<times> world" where
  "CreateShortURL svc w now req ip =
     (case CreateShortURL_code svc w now req of
        (Inl err, w') \<Rightarrow> (Inl err, w')
      | (Inr shortCode, w') \<Rightarrow> CreateShortURL_store svc w' now req ip shortCode)"

definition GetOriginalURL ::
  "URLServiceImpl \<Rightarrow> world \<Rightarrow> time \<Rightarrow> string \<Rightarrow> (error + string) \<times> world" where
  "GetOriginalURL svc w now shortCode =
     (let cacheKey = CacheKeyPrefix @ shortCode in
      case Get (cache w) cacheKey of
        Inr cachedURL \<Rightarrow> (Inr cachedURL, w)
      | Inl miss \<Rightarrow>
          (case FindByShortCode (urlRepo w) now shortCode of
             Inl err \<Rightarrow> (Inl err, w)
           | Inr url \<Rightarrow>
               let started = goroutines w @ [GoIncrementVisitCount (ID url)];
                   cacheTTL =
                     (case ExpiresAt url of
                        None \<Rightarrow> DefaultCacheTTL
                      | Some e \<Rightarrow>
                          let expiryTime = time_Until e now in
                          if expiryTime > 0 \<and> expiryTime < DefaultCacheTTL then expiryTime
                          else DefaultCacheTTL);
                   cache' = snd (SetWithTTL (cache w) cacheKey (OriginalURL url) cacheTTL)
               in (Inr (OriginalURL url), w\<lparr> cache := cache', goroutines := started \<rparr>)))"

definition RecordVisit ::
  "URLServiceImpl \<Rightarrow> world \<Rightarrow> time \<Rightarrow> 64 word \<Rightarrow> string \<Rightarrow> string \<Rightarrow> string
     \<Rightarrow> error option \<times> world" where
  "RecordVisit svc w now urlID ip userAgent referer =
     (let visit = \<lparr> visit_ID = 0, URLID = urlID, IP = ip, UserAgent = userAgent,
                    Referer = referer, visit_CreatedAt = 0 \<rparr>
      in case CreateVisit (urlRepo w) now visit of
           (err, st') \<Rightarrow> (err, w\<lparr> urlRepo := st' \<rparr>))"

definition GetURLStats ::
  "URLServiceImpl \<Rightarrow> world \<Rightarrow> time \<Rightarrow> string \<Rightarrow> error + GetURLStatsResponse" where
  "GetURLStats svc w now shortCode =
     (case FindByShortCode (urlRepo w) now shortCode of
        Inl err \<Rightarrow> Inl err
      | Inr url \<Rightarrow>
          Inr \<lparr> stats_ShortURL = domainName svc @ ''/'' @ shortCode,
                stats_OriginalURL = OriginalURL url, stats_VisitCount = VisitCount url,
                stats_CreatedAt = CreatedAt url, stats_ExpiresAt = ExpiresAt url \<rparr>)"

definition CleanupExpiredURLs ::
  "URLServiceImpl \<Rightarrow> world \<Rightarrow> time \<Rightarrow> (int \<times> error option) \<times> world" where
  "CleanupExpiredURLs svc w now =
     (case DeleteExpired (urlRepo w) now of
        (res, st') \<Rightarrow> (res, w\<lparr> urlRepo := st' \<rparr>))"

text \<open>A started goroutine runs: the call it wraps, its error printed or dropped.\<close>

fun run_goroutine :: "URLServiceImpl \<Rightarrow> world \<Rightarrow> time \<Rightarrow> goroutine \<Rightarrow> world" where
  "run_goroutine svc w now (GoIncrementVisitCount id') =
     w\<lparr> urlRepo := snd (IncrementVisitCount (urlRepo w) id') \<rparr>"
| "run_goroutine svc w now (GoRecordVisit urlID ip userAgent referer) =
     snd (RecordVisit svc w now urlID ip userAgent referer)"

section \<open>internal/handler: the redirect\<close>

datatype response =
    JSON nat string
  | Redirect nat string

text \<open>
  \<open>RedirectToOriginalURL\<close>: resolve, then read the statistics of the same code and start
  \<open>RecordVisit\<close> in a goroutine with \<open>uint(url.VisitCount)\<close> as its \<open>urlID\<close>, then
  redirect. Both \<open>uint\<close> and \<open>int64\<close> are 64 bits wide, so the conversion is the
  identity on the word.
\<close>

definition RedirectToOriginalURL ::
  "URLServiceImpl \<Rightarrow> world \<Rightarrow> time \<Rightarrow> string \<Rightarrow> string \<Rightarrow> string \<Rightarrow> string
     \<Rightarrow> response \<times> world" where
  "RedirectToOriginalURL svc w now shortCode clientIP userAgent referer =
     (case GetOriginalURL svc w now shortCode of
        (Inl err, w1) \<Rightarrow> (JSON 404 ''URL not found or expired'', w1)
      | (Inr originalURL, w1) \<Rightarrow>
          let w2 =
            (case GetURLStats svc w1 now shortCode of
               Inl err \<Rightarrow> w1
             | Inr url \<Rightarrow>
                 w1\<lparr> goroutines := goroutines w1 @
                        [GoRecordVisit (ucast (stats_VisitCount url)) clientIP userAgent referer] \<rparr>)
          in (Redirect 302 originalURL, w2))"

section \<open>Running goroutines, and states for the examples\<close>

text \<open>
  All goroutines started so far run, in the order they were started, at the clock reading
  \<open>now\<close>.
\<close>

definition run_goroutines :: "URLServiceImpl \<Rightarrow> world \<Rightarrow> time \<Rightarrow> world" where
  "run_goroutines svc w now =
     foldl (\<lambda>w' g. run_goroutine svc w' now g) (w\<lparr> goroutines := [] \<rparr>) (goroutines w)"

text \<open>
  A service that generates codes of three characters; a row of the table \<open>urls\<close>; a
  store with given rows and a working connection; a world over it with an empty, working
  cache and a given random reader; requests without and with a custom code.
\<close>

definition ex_svc :: URLServiceImpl where
  "ex_svc = \<lparr> shortener = NewShortener 3, domainName = ''http://localhost:8000'' \<rparr>"

definition ex_row :: "64 word \<Rightarrow> string \<Rightarrow> 64 word \<Rightarrow> time option \<Rightarrow> URL" where
  "ex_row id' code visits expires =
     \<lparr> ID = id', OriginalURL = ''https://example.com/'' @ code, ShortCode = code,
       VisitCount = visits, ExpiresAt = expires, CreatedByIP = ''10.0.0.1'',
       CreatedAt = 0, UpdatedAt = 0, DeletedAt = None \<rparr>"

definition ex_store :: "URL list \<Rightarrow> store" where
  "ex_store rows =
     \<lparr> urls = rows, url_visits = [], next_url_id = 10, next_visit_id = 1, db_up = True \<rparr>"

definition ex_world :: "URL list \<Rightarrow> reader \<Rightarrow> world" where
  "ex_world rows rd =
     \<lparr> urlRepo = ex_store rows, cache = \<lparr> entries = Map.empty, redis_up = True \<rparr>,
       rand_Reader = rd, goroutines = [] \<rparr>"

definition ex_req :: "time option \<Rightarrow> string \<Rightarrow> CreateURLRequest" where
  "ex_req expires custom =
     \<lparr> req_OriginalURL = ''https://example.com/page'', req_ExpiresAt = expires,
       CustomCode = custom \<rparr>"

section \<open>Properties of the code generator\<close>

subsection \<open>Decoding and the alphabet\<close>

lemma mod_shift: "b * n \<le> s \<Longrightarrow> s < b * n + n \<Longrightarrow> s mod n = s - b * (n::nat)"
proof -
  assume a: "b * n \<le> s" "s < b * n + n"
  define k where "k = s - b * n"
  have s: "s = k + b * n" and k: "k < n" using a by (simp_all add: k_def)
  have "s mod n = k mod n" unfolding s by (rule mod_mult_self1[where c = b and b = n and a = k, simplified mult.commute])
  then show ?thesis using k by (simp add: k_def)
qed

lemma lead2: "194 \<le> s \<Longrightarrow> s < 224 \<Longrightarrow> 2 \<le> s mod (32::nat)"
  using mod_shift[of 6 32 s] by simp
lemma lead3: "224 < s \<Longrightarrow> s < 240 \<Longrightarrow> 1 \<le> s mod (16::nat)"
  using mod_shift[of 14 16 s] by simp
lemma lead4: "240 < s \<Longrightarrow> s \<le> 244 \<Longrightarrow> 1 \<le> s mod (8::nat)"
  using mod_shift[of 30 8 s] by simp
lemma cont_lo: "lo \<le> s \<Longrightarrow> s \<le> 191 \<Longrightarrow> 128 \<le> lo \<Longrightarrow> lo - 128 \<le> s mod (64::nat)"
  using mod_shift[of 2 64 s] by simp

lemma decode_nonascii:
  assumes "\<not> of_char c < (128::nat)" and "DecodeRuneInString (c # cs) = (r, w)"
  shows "128 \<le> r"
proof -
  let ?s0 = "of_char c :: nat" and ?s1 = "of_char (cs ! 0) :: nat"
  note b2 = lead2[of ?s0] and b3 = lead3[of ?s0] and b4 = lead4[of ?s0]
    and c160 = cont_lo[of 160 ?s1] and c144 = cont_lo[of 144 ?s1]
  from assms show ?thesis
    apply (simp only: DecodeRuneInString.simps Let_def split: if_splits)
    apply (simp_all only: prod.inject RuneError_def)
    using b2 b3 b4 c160 c144 apply (auto split: if_splits)
    done
qed

lemma decode_ascii:
  "of_char c < (128::nat) \<Longrightarrow> DecodeRuneInString (c # cs) = (of_char c, 1)"
  by simp

lemma CharSet_length: "length CharSet = 62"
  by (simp add: CharSet_def)

lemma range_runes_CharSet: "range_runes CharSet = map of_char CharSet"
  by (simp add: CharSet_def)

lemma CharSet_ascii: "c \<in> set CharSet \<Longrightarrow> of_char c < (128::nat)"
  by (auto simp add: CharSet_def)

lemma ContainsRune_CharSet: "ContainsRune CharSet (of_char c) \<longleftrightarrow> c \<in> set CharSet"
  by (simp add: ContainsRune_def range_runes_CharSet inj_image_mem_iff[OF inj_of_char])

lemma ContainsRune_CharSet_less: "ContainsRune CharSet r \<Longrightarrow> r < 128"
  unfolding ContainsRune_def range_runes_CharSet using CharSet_ascii by auto

lemma valid_runes_iff: "valid_runes code \<longleftrightarrow> set code \<subseteq> set CharSet"
proof (induction code rule: valid_runes.induct)
  case 1
  show ?case by simp
next
  case (2 c cs)
  show ?case
  proof (cases "of_char c < (128::nat)")
    case True
    note d = decode_ascii[OF True, of cs]
    show ?thesis
    proof (cases "c \<in> set CharSet")
      case inset: True
      then have cr: "ContainsRune CharSet (of_char c)"
        by (simp only: ContainsRune_CharSet)
      have "valid_runes (drop (1 - 1) cs) = (set (drop (1 - 1) cs) \<subseteq> set CharSet)"
        using cr by (intro 2[OF d[symmetric]]) simp
      then have ih: "valid_runes cs = (set cs \<subseteq> set CharSet)" by simp
      have "valid_runes (c # cs) = valid_runes cs"
        using cr by (simp only: valid_runes.simps d prod.case) simp
      with ih inset show ?thesis by simp
    next
      case notin: False
      then have cr: "\<not> ContainsRune CharSet (of_char c)"
        by (simp add: ContainsRune_CharSet)
      have "\<not> valid_runes (c # cs)"
        using cr by (simp only: valid_runes.simps d prod.case) simp
      with notin show ?thesis by simp
    qed
  next
    case False
    obtain r w where d: "DecodeRuneInString (c # cs) = (r, w)" by force
    from decode_nonascii[OF False d] have "128 \<le> r" .
    with ContainsRune_CharSet_less[of r] have cr: "\<not> ContainsRune CharSet r" by auto
    have nv: "\<not> valid_runes (c # cs)"
      using cr by (simp only: valid_runes.simps d prod.case) simp
    have "c \<notin> set CharSet" using False CharSet_ascii by blast
    with nv show ?thesis by simp
  qed
qed

text \<open>
  C7. \<open>IsValidCustomCode\<close> is true exactly for the codes of 3 to 20 bytes all of whose
  characters are in the 62-character alphabet. (A code with a byte outside ASCII decodes
  to runes outside the alphabet, so bytes and runes give the same answer, and for the
  codes accepted the length in bytes is the length in characters.)
\<close>

theorem IsValidCustomCode_iff: "IsValidCustomCode s code \<longleftrightarrow> (3 \<le> length code \<and> length code \<le> 20 \<and> set code \<subseteq> set CharSet)"
  by (auto simp add: IsValidCustomCode_def valid_runes_iff)

theorem IsValidCustomCode_iff_witness:
  "IsValidCustomCode (NewShortener 6) ''my-link'' = False \<and>
   IsValidCustomCode (NewShortener 6) ''myLink42'' = True \<and>
   IsValidCustomCode (NewShortener 6) ''ab'' = False \<and>
   IsValidCustomCode (NewShortener 6) [CHR ''c'', CHR ''a'', CHR ''f'', CHR 0xC3, CHR 0xA9] = False"
  using IsValidCustomCode_iff[of "NewShortener 6" "''my-link''"]
    IsValidCustomCode_iff[of "NewShortener 6" "''myLink42''"]
    IsValidCustomCode_iff[of "NewShortener 6" "''ab''"]
    IsValidCustomCode_iff[of "NewShortener 6" "[CHR ''c'', CHR ''a'', CHR ''f'', CHR 0xC3, CHR 0xA9]"]
  by (simp add: CharSet_def)

subsection \<open>Generate\<close>

lemma rand_Int_less: "rand_Int rd b = (Inr v, rd') \<Longrightarrow> 0 < b \<Longrightarrow> v < b"
  by (auto simp add: rand_Int_def split: list.splits option.splits)

lemma gen_loop_ok:
  "gen_loop i n result rd = (Inr s, rd') \<Longrightarrow> length result = n \<Longrightarrow>
   (\<forall>j<i. result ! j \<in> set CharSet) \<Longrightarrow> i \<le> n \<Longrightarrow>
   length s = n \<and> set s \<subseteq> set CharSet"
proof (induction i n result rd rule: gen_loop.induct)
  case (1 i n result rd)
  show ?case
  proof (cases "i < n")
    case False
    with 1(2) have s: "s = result" by (simp add: gen_loop.simps[of i n result rd])
    from False 1(5) have "i = n" by simp
    with 1(3,4) s show ?thesis
      by (auto simp add: in_set_conv_nth)
  next
    case True
    obtain res rd1 where ri: "rand_Int rd (length CharSet) = (res, rd1)" by force
    show ?thesis
    proof (cases res)
      case (Inl e)
      with 1(2) True ri show ?thesis by (simp add: gen_loop.simps[of i n result rd])
    next
      case (Inr idx)
      have idx: "idx < length CharSet"
        using rand_Int_less[of rd "length CharSet" idx rd1] ri Inr by (simp add: CharSet_length)
      have ir: "i < length result" using True 1(3) by simp
      let ?result' = "result[i := CharSet ! idx]"
      have rec: "gen_loop (i + 1) n ?result' rd1 = (Inr s, rd')"
        using 1(2) True ri Inr idx ir by (simp add: gen_loop.simps[of i n result rd])
      have inv: "\<forall>j<i + 1. ?result' ! j \<in> set CharSet"
        using 1(4) ir idx by (auto simp add: nth_list_update less_Suc_eq)
      have "length s = n \<and> set s \<subseteq> set CharSet"
      proof (rule 1(1)[OF True ri[symmetric] Inr _ rec _ inv])
        show "idx < length CharSet \<and> i < length result" using idx ir by simp
        show "length ?result' = n" using 1(3) by simp
        show "i + 1 \<le> n" using True by simp
      qed
      then show ?thesis .
    qed
  qed
qed

text \<open>
  C8. For a positive length \<open>L\<close>, a successful \<open>Generate\<close> of a shortener made with
  \<open>L\<close> returns exactly \<open>L\<close> characters, all from the 62-character alphabet.
\<close>

theorem Generate_length_alphabet:
  "0 < L \<Longrightarrow> Generate (NewShortener L) rd = (Inr code, rd') \<Longrightarrow>
     length code = nat L \<and> set code \<subseteq> set CharSet"
  using gen_loop_ok[of 0 "nat L" "replicate (nat L) (CHR 0x00)" rd code rd']
  by (simp add: Generate_def NewShortener_def generateRandomString_def)

theorem Generate_length_alphabet_witness:
  "(0::int) < 3 \<and> Generate (NewShortener 3) [Some 0, Some 27, Some 123] = (Inr ''aB9'', []) \<and>
   length ''aB9'' = nat 3 \<and> set ''aB9'' \<subseteq> set CharSet"
proof -
  have g: "Generate (NewShortener 3) [Some 0, Some 27, Some 123] = (Inr ''aB9'', [])"
    by code_simp
  from Generate_length_alphabet[OF _ g] g show ?thesis by simp
qed

section \<open>Cleanup of expired links\<close>

lemma filter_live_DeleteExpired:
  "filter live (map (\<lambda>u. if live u \<and> expired_row now u then u\<lparr> DeletedAt := Some now \<rparr> else u) xs)
     = filter (\<lambda>u. \<not> expired_row now u) (filter live xs)"
  by (induction xs) (auto simp add: live_def)

lemma expired_row_iff: "expired_row now u \<longleftrightarrow> (\<exists>e. ExpiresAt u = Some e \<and> e < now)"
  by (simp add: expired_row_def split: option.splits)

lemma length_filter_split:
  "length (filter P xs) = length (filter (\<lambda>x. P x \<and> Q x) xs) + length (filter (\<lambda>x. \<not> Q x) (filter P xs))"
  by (induction xs) auto

text \<open>
  C6. With the database answering, \<open>CleanupExpiredURLs\<close> returns no error; the live
  rows it leaves are the live rows it found minus those whose \<open>ExpiresAt\<close> is set and
  strictly before \<open>now\<close>, each unchanged; the count it returns is the number of live rows
  with \<open>ExpiresAt\<close> set and strictly before \<open>now\<close>, which is the number of rows that
  stopped being live; and a live row without \<open>ExpiresAt\<close> stays live. (The delete is
  gorm's soft delete: it marks the row, and no query sees a marked row again.)
\<close>

theorem CleanupExpiredURLs_deletes_expired:
  assumes "db_up (urlRepo w)"
      and "CleanupExpiredURLs svc w now = ((n, err), w')"
  shows "err = None
     \<and> filter live (urls (urlRepo w')) =
         filter (\<lambda>u. \<not> (\<exists>e. ExpiresAt u = Some e \<and> e < now)) (filter live (urls (urlRepo w)))
     \<and> n = int (length (filter (\<lambda>u. live u \<and> (\<exists>e. ExpiresAt u = Some e \<and> e < now)) (urls (urlRepo w))))
     \<and> n = int (length (filter live (urls (urlRepo w)))) - int (length (filter live (urls (urlRepo w'))))
     \<and> {u \<in> set (urls (urlRepo w)). live u \<and> ExpiresAt u = None} \<subseteq> {u \<in> set (urls (urlRepo w')). live u}"
proof -
  let ?xs = "urls (urlRepo w)"
  let ?hit = "\<lambda>u. live u \<and> expired_row now u"
  from assms have err: "err = None"
    and n: "n = int (length (filter ?hit ?xs))"
    and w': "urls (urlRepo w') = map (\<lambda>u. if ?hit u then u\<lparr> DeletedAt := Some now \<rparr> else u) ?xs"
    by (auto simp add: CleanupExpiredURLs_def DeleteExpired_def)
  have l: "filter live (urls (urlRepo w')) = filter (\<lambda>u. \<not> expired_row now u) (filter live ?xs)"
    unfolding w' by (rule filter_live_DeleteExpired)
  have c: "length (filter live ?xs) = length (filter ?hit ?xs) + length (filter live (urls (urlRepo w')))"
    unfolding l by (rule length_filter_split)
  have s: "{u \<in> set ?xs. live u \<and> ExpiresAt u = None} \<subseteq> {u \<in> set (urls (urlRepo w')). live u}"
  proof
    fix u assume "u \<in> {u \<in> set ?xs. live u \<and> ExpiresAt u = None}"
    then have "u \<in> set (filter (\<lambda>u. \<not> expired_row now u) (filter live ?xs))"
      by (simp add: expired_row_def)
    then have "u \<in> set (filter live (urls (urlRepo w')))" by (simp only: l)
    then show "u \<in> {u \<in> set (urls (urlRepo w')). live u}" by simp
  qed
  show ?thesis using err n l c s by (simp add: expired_row_iff)
qed

theorem CleanupExpiredURLs_deletes_expired_witness:
  "CleanupExpiredURLs ex_svc
      (ex_world [ex_row 1 ''old'' 0 (Some 500), ex_row 2 ''edge'' 0 (Some 1000),
                 ex_row 3 ''new'' 0 (Some 2000), ex_row 4 ''keep'' 0 None] []) 1000
    = ((1, None),
       ex_world [(ex_row 1 ''old'' 0 (Some 500))\<lparr> DeletedAt := Some 1000 \<rparr>, ex_row 2 ''edge'' 0 (Some 1000),
                 ex_row 3 ''new'' 0 (Some 2000), ex_row 4 ''keep'' 0 None] [])
   \<and> filter live [(ex_row 1 ''old'' 0 (Some 500))\<lparr> DeletedAt := Some 1000 \<rparr>, ex_row 2 ''edge'' 0 (Some 1000),
                 ex_row 3 ''new'' 0 (Some 2000), ex_row 4 ''keep'' 0 None]
      = [ex_row 2 ''edge'' 0 (Some 1000), ex_row 3 ''new'' 0 (Some 2000), ex_row 4 ''keep'' 0 None]"
proof -
  let ?w = "ex_world [ex_row 1 ''old'' 0 (Some 500), ex_row 2 ''edge'' 0 (Some 1000),
                 ex_row 3 ''new'' 0 (Some 2000), ex_row 4 ''keep'' 0 None] []"
  let ?w' = "ex_world [(ex_row 1 ''old'' 0 (Some 500))\<lparr> DeletedAt := Some 1000 \<rparr>, ex_row 2 ''edge'' 0 (Some 1000),
                 ex_row 3 ''new'' 0 (Some 2000), ex_row 4 ''keep'' 0 None] []"
  have up: "db_up (urlRepo ?w)" by (simp add: ex_world_def ex_store_def)
  have run: "CleanupExpiredURLs ex_svc ?w 1000 = ((1, None), ?w')"
    by (simp add: CleanupExpiredURLs_def DeleteExpired_def ex_world_def ex_store_def ex_row_def
        live_def expired_row_def)
  from CleanupExpiredURLs_deletes_expired[OF up run] run show ?thesis
    by (simp add: ex_world_def ex_store_def ex_row_def live_def)
qed

section \<open>Resolution\<close>

subsection \<open>The time-to-live\<close>

lemma time_Until_cases:
  "(0 < time_Until e now \<longleftrightarrow> now < e) \<and>
   (time_Until e now < 24 * Hour \<longleftrightarrow> e - now < 24 * Hour) \<and>
   (time_Until e now < 24 * Hour \<longrightarrow> 0 < time_Until e now \<longrightarrow> time_Until e now = e - now)"
  by (simp add: time_Until_def time_Sub_def maxDuration_def minDuration_def Hour_def Let_def)

lemma cacheTTL_eq:
  "(case x of
      None \<Rightarrow> DefaultCacheTTL
    | Some e \<Rightarrow>
        let expiryTime = time_Until e now in
        if 0 < expiryTime \<and> expiryTime < DefaultCacheTTL then expiryTime
        else DefaultCacheTTL)
   = (case x of
        None \<Rightarrow> 24 * Hour
      | Some e \<Rightarrow> if now < e then min (24 * Hour) (e - now) else 24 * Hour)"
proof (cases x)
  case None
  then show ?thesis by (simp add: DefaultCacheTTL_def)
next
  case (Some e)
  have a: "0 < time_Until e now \<longleftrightarrow> now < e"
    and b: "time_Until e now < 24 * Hour \<longleftrightarrow> e - now < 24 * Hour"
    and c: "time_Until e now < 24 * Hour \<Longrightarrow> 0 < time_Until e now \<Longrightarrow> time_Until e now = e - now"
    using time_Until_cases[of e now] by blast+
  show ?thesis
  proof (cases "now < e \<and> e - now < 24 * Hour")
    case True
    with a b c have "time_Until e now = e - now" by blast
    with True a b show ?thesis
      unfolding Some option.case DefaultCacheTTL_def Let_def by (simp only: min_def) simp
  next
    case False
    with a b have "\<not> (0 < time_Until e now \<and> time_Until e now < 24 * Hour)" by blast
    then have "(let expiryTime = time_Until e now in
        if 0 < expiryTime \<and> expiryTime < 24 * Hour then expiryTime else 24 * Hour) = 24 * Hour"
      unfolding Let_def by (rule if_not_P)
    moreover have "(if now < e then min (24 * Hour) (e - now) else 24 * Hour) = 24 * Hour"
      using False by (simp only: min_def split: if_splits) linarith
    ultimately show ?thesis
      unfolding Some option.case DefaultCacheTTL_def by (rule trans[OF _ sym])
  qed
qed

lemma CreateShortURL_store_cache:
  assumes "CreateShortURL_store svc w now req ip code = (Inr resp, w')" and "redis_up (cache w)"
  shows "resp_ShortCode resp = code \<and> entries (cache w') (CacheKeyPrefix @ code) =
      Some (req_OriginalURL req,
            case req_ExpiresAt req of
              None \<Rightarrow> 24 * Hour
            | Some e \<Rightarrow> if now < e then min (24 * Hour) (e - now) else 24 * Hour)"
proof -
  let ?url = "\<lparr> ID = 0, OriginalURL = req_OriginalURL req, ShortCode = code,
                  VisitCount = 0, ExpiresAt = req_ExpiresAt req, CreatedByIP = ip,
                  CreatedAt = 0, UpdatedAt = 0, DeletedAt = None \<rparr>"
  obtain r st' where c: "Create (urlRepo w) now ?url = (r, st')" by force
  show ?thesis
  proof (cases r)
    case (Inl err)
    with assms(1) c show ?thesis by (simp add: CreateShortURL_store_def)
  next
    case (Inr url')
    with c have u: "url' = ?url\<lparr> ID := next_url_id (urlRepo w), CreatedAt := now, UpdatedAt := now \<rparr>"
      by (auto simp add: Create_def Let_def split: if_splits)
    from assms c Inr show ?thesis
      by (auto simp add: CreateShortURL_store_def u Let_def SetWithTTL_def Set'_def cacheTTL_eq)
  qed
qed

lemma CreateShortURL_code_cache:
  "CreateShortURL_code svc w now req = (r, w1) \<Longrightarrow> cache w1 = cache w"
  by (auto simp add: CreateShortURL_code_def split: if_splits sum.splits prod.splits)

text \<open>
  C3, as the claim states it, fails: a link created with an expiration already in the past
  (500, at clock reading 1000: the time remaining is \<open>-500\<close>) is cached all the same,
  with the 24-hour default.
\<close>

theorem expired_link_cached_for_default_ttl:
  "time_Until 500 1000 = - 500
   \<and> fst (CreateShortURL ex_svc (ex_world [] [Some 0, Some 1, Some 2]) 1000 (ex_req (Some 500) [])
           ''10.0.0.9'')
       = Inr \<lparr> ShortURL = ''http://localhost:8000/abc'', resp_OriginalURL = ''https://example.com/page'',
               resp_ShortCode = ''abc'', resp_ExpiresAt = Some 500, resp_CreatedAt = 1000 \<rparr>
   \<and> entries (cache (snd (CreateShortURL ex_svc (ex_world [] [Some 0, Some 1, Some 2]) 1000
           (ex_req (Some 500) []) ''10.0.0.9''))) ''url:abc''
       = Some (''https://example.com/page'', 86400000000000)"
  by code_simp

text \<open>
  C3, amended. A successful \<open>CreateShortURL\<close>, and a \<open>GetOriginalURL\<close> that misses the
  cache and finds the record, both write the cache entry of the code (when Redis answers)
  with this time-to-live: 24 hours when the record has no expiration; the smaller of 24
  hours and the time until expiration when the expiration is in the future; and 24 hours
  again when the time remaining is not positive. There is no path that leaves the entry
  unwritten.
\<close>

theorem cache_ttl:
  "(CreateShortURL svc w now req ip = (Inr resp, w') \<longrightarrow> redis_up (cache w) \<longrightarrow>
      entries (cache w') (CacheKeyPrefix @ resp_ShortCode resp) =
        Some (req_OriginalURL req,
              case req_ExpiresAt req of
                None \<Rightarrow> 24 * Hour
              | Some e \<Rightarrow> if now < e then min (24 * Hour) (e - now) else 24 * Hour))
   \<and> (Get (cache w) (CacheKeyPrefix @ shortCode) = Inl miss \<longrightarrow>
      FindByShortCode (urlRepo w) now shortCode = Inr u \<longrightarrow> redis_up (cache w) \<longrightarrow>
      entries (cache (snd (GetOriginalURL svc w now shortCode))) (CacheKeyPrefix @ shortCode) =
        Some (OriginalURL u,
              case ExpiresAt u of
                None \<Rightarrow> 24 * Hour
              | Some e \<Rightarrow> if now < e then min (24 * Hour) (e - now) else 24 * Hour))"
proof (intro conjI impI)
  assume a: "CreateShortURL svc w now req ip = (Inr resp, w')" and up: "redis_up (cache w)"
  obtain r w1 where c: "CreateShortURL_code svc w now req = (r, w1)" by force
  with a obtain code where r: "r = Inr code"
    and s: "CreateShortURL_store svc w1 now req ip code = (Inr resp, w')"
    by (cases r) (auto simp add: CreateShortURL_def)
  from CreateShortURL_code_cache[OF c] up have "redis_up (cache w1)" by simp
  from CreateShortURL_store_cache[OF s this]
  show "entries (cache w') (CacheKeyPrefix @ resp_ShortCode resp) =
        Some (req_OriginalURL req,
              case req_ExpiresAt req of
                None \<Rightarrow> 24 * Hour
              | Some e \<Rightarrow> if now < e then min (24 * Hour) (e - now) else 24 * Hour)"
    by simp
next
  assume "Get (cache w) (CacheKeyPrefix @ shortCode) = Inl miss"
    and "FindByShortCode (urlRepo w) now shortCode = Inr u" and "redis_up (cache w)"
  then show "entries (cache (snd (GetOriginalURL svc w now shortCode))) (CacheKeyPrefix @ shortCode) =
        Some (OriginalURL u,
              case ExpiresAt u of
                None \<Rightarrow> 24 * Hour
              | Some e \<Rightarrow> if now < e then min (24 * Hour) (e - now) else 24 * Hour)"
    by (simp add: GetOriginalURL_def Let_def SetWithTTL_def Set'_def cacheTTL_eq)
qed

theorem cache_ttl_witness:
  "entries (cache (snd (CreateShortURL ex_svc (ex_world [] [Some 0, Some 1, Some 2]) 0
                          (ex_req (Some (600 * 1000000000)) []) ''10.0.0.9''))) ''url:abc''
     = Some (''https://example.com/page'', 600 * 1000000000)
   \<and> entries (cache (snd (GetOriginalURL ex_svc (ex_world [ex_row 3 ''abc'' 0 None] []) 1000 ''abc'')))
        ''url:abc''
     = Some (''https://example.com/abc'', 86400 * 1000000000)
   \<and> entries (cache (snd (GetOriginalURL ex_svc (ex_world [ex_row 3 ''abc'' 0 (Some 1000)] []) 1000
        ''abc''))) ''url:abc''
     = Some (''https://example.com/abc'', 86400 * 1000000000)"
proof -
  let ?w = "ex_world [] [Some 0, Some 1, Some 2]"
  let ?req = "ex_req (Some (600 * 1000000000)) []"
  let ?resp = "\<lparr> ShortURL = ''http://localhost:8000/abc'', resp_OriginalURL = ''https://example.com/page'',
               resp_ShortCode = ''abc'', resp_ExpiresAt = Some (600 * 1000000000), resp_CreatedAt = 0 \<rparr>"
  let ?v = "ex_world [ex_row 3 ''abc'' 0 None] []"
  let ?z = "ex_world [ex_row 3 ''abc'' 0 (Some 1000)] []"
  have r: "fst (CreateShortURL ex_svc ?w 0 ?req ''10.0.0.9'') = Inr ?resp" by code_simp
  then have c: "CreateShortURL ex_svc ?w 0 ?req ''10.0.0.9'' =
      (Inr ?resp, snd (CreateShortURL ex_svc ?w 0 ?req ''10.0.0.9''))"
    by (simp add: prod_eq_iff)
  have up: "redis_up (cache ?w)" "redis_up (cache ?v)" "redis_up (cache ?z)"
    by (simp_all add: ex_world_def)
  have miss: "Get (cache ?v) (CacheKeyPrefix @ ''abc'') = Inl ErrKeyNotFound"
    "Get (cache ?z) (CacheKeyPrefix @ ''abc'') = Inl ErrKeyNotFound"
    by (simp_all add: Get_def ex_world_def)
  have f: "FindByShortCode (urlRepo ?v) 1000 ''abc'' = Inr (ex_row 3 ''abc'' 0 None)"
    "FindByShortCode (urlRepo ?z) 1000 ''abc'' = Inr (ex_row 3 ''abc'' 0 (Some 1000))"
    by (simp_all add: FindByShortCode_def ex_world_def ex_store_def ex_row_def live_def)
  \<comment> \<open>an expiration ten minutes ahead: ten minutes\<close>
  from cache_ttl[THEN conjunct1, rule_format, OF c up(1)]
  have a: "entries (cache (snd (CreateShortURL ex_svc ?w 0 ?req ''10.0.0.9''))) ''url:abc''
     = Some (''https://example.com/page'', 600 * 1000000000)"
    by (simp add: CacheKeyPrefix_def ex_req_def Hour_def)
  \<comment> \<open>no expiration: 24 hours\<close>
  from cache_ttl[THEN conjunct2, rule_format, OF miss(1) f(1) up(2), of ex_svc]
  have b: "entries (cache (snd (GetOriginalURL ex_svc ?v 1000 ''abc''))) ''url:abc''
     = Some (''https://example.com/abc'', 86400 * 1000000000)"
    by (simp add: CacheKeyPrefix_def ex_row_def Hour_def)
  \<comment> \<open>an expiration at the clock reading, no time remaining: 24 hours\<close>
  from cache_ttl[THEN conjunct2, rule_format, OF miss(2) f(2) up(3), of ex_svc]
  have d: "entries (cache (snd (GetOriginalURL ex_svc ?z 1000 ''abc''))) ''url:abc''
     = Some (''https://example.com/abc'', 86400 * 1000000000)"
    by (simp add: CacheKeyPrefix_def ex_row_def Hour_def)
  from a b d show ?thesis by blast
qed

subsection \<open>Cache hits\<close>

text \<open>
  C9. When the cache holds an entry for the code, \<open>GetOriginalURL\<close> returns the cached
  value and leaves the world as it is: no row changes, no visit is counted, no goroutine
  starts. The result does not depend on the store either: it is the same over any store
  \<open>st\<close>.
\<close>

theorem GetOriginalURL_cache_hit:
  assumes "redis_up (cache w)"
      and "entries (cache w) (CacheKeyPrefix @ shortCode) = Some (v, ttl)"
  shows "GetOriginalURL svc w now shortCode = (Inr v, w) \<and>
         (\<forall>st. GetOriginalURL svc (w\<lparr> urlRepo := st \<rparr>) now shortCode = (Inr v, w\<lparr> urlRepo := st \<rparr>))"
  using assms by (simp add: GetOriginalURL_def Get_def)

theorem GetOriginalURL_cache_hit_witness:
  "GetOriginalURL ex_svc
     ((ex_world [] [])\<lparr> cache := \<lparr> entries = [''url:abc'' \<mapsto> (''https://example.com/page'', 600)],
                                   redis_up = True \<rparr> \<rparr>) 1000 ''abc''
   = (Inr ''https://example.com/page'',
      (ex_world [] [])\<lparr> cache := \<lparr> entries = [''url:abc'' \<mapsto> (''https://example.com/page'', 600)],
                                   redis_up = True \<rparr> \<rparr>)"
proof -
  let ?w = "(ex_world [] [])\<lparr> cache := \<lparr> entries = [''url:abc'' \<mapsto> (''https://example.com/page'', 600)],
                                   redis_up = True \<rparr> \<rparr>"
  have up: "redis_up (cache ?w)" by simp
  have hit: "entries (cache ?w) (CacheKeyPrefix @ ''abc'') = Some (''https://example.com/page'', 600)"
    by (simp add: CacheKeyPrefix_def)
  from GetOriginalURL_cache_hit[OF up hit, of ex_svc 1000] show ?thesis by simp
qed

text \<open>
  C4, as the claim states it, fails. The link created above with its expiration in the past
  is expired for the store at clock reading 2000, its cache entry is there with a
  time-to-live of 24 hours, and \<open>GetOriginalURL\<close> returns the URL.
\<close>

theorem stale_cache_entry_resolves_expired:
  "FindByShortCode (urlRepo (snd (CreateShortURL ex_svc (ex_world [] [Some 0, Some 1, Some 2]) 1000
           (ex_req (Some 500) []) ''10.0.0.9''))) 2000 ''abc'' = Inl ErrExpired
   \<and> entries (cache (snd (CreateShortURL ex_svc (ex_world [] [Some 0, Some 1, Some 2]) 1000
           (ex_req (Some 500) []) ''10.0.0.9''))) ''url:abc''
       = Some (''https://example.com/page'', 86400000000000)
   \<and> fst (GetOriginalURL ex_svc (snd (CreateShortURL ex_svc (ex_world [] [Some 0, Some 1, Some 2]) 1000
           (ex_req (Some 500) []) ''10.0.0.9'')) 2000 ''abc'')
       = Inr ''https://example.com/page''"
  by code_simp

text \<open>
  C4, amended. For a code whose live record has its \<open>ExpiresAt\<close> before \<open>now\<close> (and
  the database answering): when the cache lookup misses or fails, \<open>GetOriginalURL\<close>
  returns the repository's error for an expired URL and changes nothing, the expiry being
  checked against the clock by the store lookup; when the cache lookup hits, it returns the
  cached value, with no check of the expiry.
\<close>

theorem expired_on_cache_miss:
  assumes "db_up (urlRepo w)"
      and "find (\<lambda>u. ShortCode u = shortCode \<and> live u) (urls (urlRepo w)) = Some u"
      and "ExpiresAt u = Some e" and "e < now"
  shows "(Get (cache w) (CacheKeyPrefix @ shortCode) = Inl miss \<longrightarrow>
            GetOriginalURL svc w now shortCode = (Inl ErrExpired, w)) \<and>
         (Get (cache w) (CacheKeyPrefix @ shortCode) = Inr v \<longrightarrow>
            GetOriginalURL svc w now shortCode = (Inr v, w))"
  using assms by (simp add: GetOriginalURL_def FindByShortCode_def)

theorem expired_on_cache_miss_witness:
  "GetOriginalURL ex_svc (ex_world [ex_row 3 ''abc'' 0 (Some 500)] []) 1000 ''abc''
     = (Inl ErrExpired, ex_world [ex_row 3 ''abc'' 0 (Some 500)] [])
   \<and> GetOriginalURL ex_svc
       ((ex_world [ex_row 3 ''abc'' 0 (Some 500)] [])
          \<lparr> cache := \<lparr> entries = [''url:abc'' \<mapsto> (''https://example.com/abc'', 600)], redis_up = True \<rparr> \<rparr>)
       1000 ''abc''
     = (Inr ''https://example.com/abc'',
        (ex_world [ex_row 3 ''abc'' 0 (Some 500)] [])
          \<lparr> cache := \<lparr> entries = [''url:abc'' \<mapsto> (''https://example.com/abc'', 600)], redis_up = True \<rparr> \<rparr>)"
proof -
  let ?w = "ex_world [ex_row 3 ''abc'' 0 (Some 500)] []"
  let ?wc = "?w\<lparr> cache := \<lparr> entries = [''url:abc'' \<mapsto> (''https://example.com/abc'', 600)], redis_up = True \<rparr> \<rparr>"
  have up: "db_up (urlRepo ?w)" "db_up (urlRepo ?wc)"
    by (simp_all add: ex_world_def ex_store_def)
  have row: "find (\<lambda>u. ShortCode u = ''abc'' \<and> live u) (urls (urlRepo ?w)) = Some (ex_row 3 ''abc'' 0 (Some 500))"
    "find (\<lambda>u. ShortCode u = ''abc'' \<and> live u) (urls (urlRepo ?wc)) = Some (ex_row 3 ''abc'' 0 (Some 500))"
    by (simp_all add: ex_world_def ex_store_def ex_row_def live_def)
  have ex: "ExpiresAt (ex_row 3 ''abc'' 0 (Some 500)) = Some 500" by (simp add: ex_row_def)
  have past: "(500::int) < 1000" by simp
  have miss: "Get (cache ?w) (CacheKeyPrefix @ ''abc'') = Inl ErrKeyNotFound"
    by (simp add: Get_def ex_world_def)
  have hit: "Get (cache ?wc) (CacheKeyPrefix @ ''abc'') = Inr ''https://example.com/abc''"
    by (simp add: Get_def CacheKeyPrefix_def)
  from expired_on_cache_miss[OF up(1) row(1) ex past, of ErrKeyNotFound ex_svc] miss
  have a: "GetOriginalURL ex_svc ?w 1000 ''abc'' = (Inl ErrExpired, ?w)" by blast
  from expired_on_cache_miss[OF up(2) row(2) ex past, of _ ex_svc "''https://example.com/abc''"] hit
  have b: "GetOriginalURL ex_svc ?wc 1000 ''abc'' = (Inr ''https://example.com/abc'', ?wc)" by blast
  from a b show ?thesis by (rule conjI)
qed

section \<open>Creation\<close>

subsection \<open>The generation loop\<close>

lemma create_loop_accept:
  "i < 5 \<Longrightarrow> Generate s rd = (Inr c, rd') \<Longrightarrow> FindByShortCode st now c = Inl e \<Longrightarrow>
   create_loop s st now i sc rd = (Inr c, rd')"
  by (simp add: create_loop.simps[of s st now i sc rd])

lemma create_loop_retry:
  "i < 4 \<Longrightarrow> Generate s rd = (Inr c, rd1) \<Longrightarrow> FindByShortCode st now c = Inr u \<Longrightarrow>
   create_loop s st now i sc rd = create_loop s st now (i + 1) c rd1"
  by (simp add: create_loop.simps[of s st now i sc rd])

lemma create_loop_last:
  "Generate s rd = (Inr c, rd1) \<Longrightarrow> FindByShortCode st now c = Inr u \<Longrightarrow>
   create_loop s st now 4 sc rd = (Inl ErrNoUniqueCode, rd1)"
  by (simp add: create_loop.simps[of s st now 4 sc rd])

lemma create_loop_generr:
  "i < 5 \<Longrightarrow> Generate s rd = (Inl e, rd1) \<Longrightarrow>
   create_loop s st now i sc rd = (Inl (ErrGenerate e), rd1)"
  by (simp add: create_loop.simps[of s st now i sc rd])

lemma candidates_Suc_full:
  assumes "candidates s rd (Suc n) = (cs, rd')" and "length cs = Suc n"
  obtains c rd1 cs' where "Generate s rd = (Inr c, rd1)" and "candidates s rd1 n = (cs', rd')"
    and "cs = c # cs'" and "length cs' = n"
proof -
  obtain r rd1 where g: "Generate s rd = (r, rd1)" by force
  show thesis
  proof (cases r)
    case (Inl e)
    with assms g show thesis by simp
  next
    case (Inr c)
    obtain cs' rd2 where c: "candidates s rd1 n = (cs', rd2)" by force
    with assms g Inr have "cs = c # cs'" "rd2 = rd'" "length cs' = n" by auto
    with that g Inr c show thesis by blast
  qed
qed

lemma not_isl_Inr: "\<not> isl x \<Longrightarrow> \<exists>u. x = Inr u"
  by (cases x) auto

lemma isl_Inl: "isl x \<Longrightarrow> \<exists>e. x = Inl e"
  by (cases x) auto

lemma create_loop_first_free:
  "candidates s rd (Suc k) = (cs, rd') \<Longrightarrow> length cs = Suc k \<Longrightarrow> i + k < 5 \<Longrightarrow>
   (\<forall>j<k. \<not> isl (FindByShortCode st now (cs ! j))) \<Longrightarrow>
   isl (FindByShortCode st now (cs ! k)) \<Longrightarrow>
   create_loop s st now i sc rd = (Inr (cs ! k), rd')"
proof (induction k arbitrary: i sc rd cs)
  case 0
  from 0(1,2) obtain c rd1 cs' where g: "Generate s rd = (Inr c, rd1)"
    and c: "candidates s rd1 0 = (cs', rd')" and cs: "cs = c # cs'"
    by (rule candidates_Suc_full)
  from c have rd1: "rd1 = rd'" by simp
  from 0(5) cs obtain e where "FindByShortCode st now c = Inl e"
    using isl_Inl by fastforce
  from create_loop_accept[OF _ g this, of i sc] 0(3) cs rd1 show ?case by simp
next
  case (Suc k)
  from Suc(2,3) obtain c rd1 cs' where g: "Generate s rd = (Inr c, rd1)"
    and c: "candidates s rd1 (Suc k) = (cs', rd')" and cs: "cs = c # cs'"
    and len: "length cs' = Suc k"
    by (rule candidates_Suc_full)
  from Suc(5) cs have "\<not> isl (FindByShortCode st now c)" by auto
  then obtain u where f: "FindByShortCode st now c = Inr u" using not_isl_Inr by blast
  have step: "create_loop s st now i sc rd = create_loop s st now (i + 1) c rd1"
    using Suc(4) by (intro create_loop_retry[OF _ g f]) simp
  have rest: "\<forall>j<k. \<not> isl (FindByShortCode st now (cs' ! j))"
    using Suc(5) cs by auto
  have last: "isl (FindByShortCode st now (cs' ! k))" using Suc(6) cs by simp
  have "create_loop s st now (i + 1) c rd1 = (Inr (cs' ! k), rd')"
    using Suc(4) by (intro Suc.IH[OF c len _ rest last]) simp
  with step cs show ?case by simp
qed

lemma create_loop_exhaust:
  "candidates s rd n = (cs, rd') \<Longrightarrow> length cs = n \<Longrightarrow> i + n = 5 \<Longrightarrow> 0 < n \<Longrightarrow>
   (\<forall>j<n. \<not> isl (FindByShortCode st now (cs ! j))) \<Longrightarrow>
   create_loop s st now i sc rd = (Inl ErrNoUniqueCode, rd')"
proof (induction n arbitrary: i sc rd cs)
  case 0
  then show ?case by simp
next
  case (Suc n)
  from Suc(2,3) obtain c rd1 cs' where g: "Generate s rd = (Inr c, rd1)"
    and c: "candidates s rd1 n = (cs', rd')" and cs: "cs = c # cs'"
    and len: "length cs' = n"
    by (rule candidates_Suc_full)
  from Suc(6) cs have "\<not> isl (FindByShortCode st now c)" by auto
  then obtain u where f: "FindByShortCode st now c = Inr u" using not_isl_Inr by blast
  show ?case
  proof (cases n)
    case 0
    with Suc(4) have i: "i = 4" by simp
    from c 0 have "rd1 = rd'" by simp
    with create_loop_last[OF g f, of sc] i show ?thesis by simp
  next
    case (Suc m)
    have step: "create_loop s st now i sc rd = create_loop s st now (i + 1) c rd1"
      using Suc.prems(3) Suc by (intro create_loop_retry[OF _ g f]) simp
    have rest: "\<forall>j<n. \<not> isl (FindByShortCode st now (cs' ! j))"
      using Suc.prems(5) cs by auto
    have "create_loop s st now (i + 1) c rd1 = (Inl ErrNoUniqueCode, rd')"
      using Suc.prems(3) Suc by (intro Suc.IH[OF c len _ _ rest]) simp_all
    with step show ?thesis by simp
  qed
qed

lemma create_loop_bound:
  "\<exists>n\<le>5 - i. snd (create_loop s st now i sc rd) = snd (candidates s rd n)"
proof (induction s st now i sc rd rule: create_loop.induct)
  case (1 s st now i sc rd)
  show ?case
  proof (cases "i < 5")
    case False
    then have "snd (create_loop s st now i sc rd) = snd (candidates s rd 0)"
      by (simp add: create_loop.simps[of s st now i sc rd])
    then show ?thesis by blast
  next
    case True
    obtain r rd1 where g: "Generate s rd = (r, rd1)" by force
    have one: "1 \<le> 5 - i" using True by simp
    show ?thesis
    proof (cases r)
      case (Inl e)
      with g True have "snd (create_loop s st now i sc rd) = snd (candidates s rd (Suc 0))"
        by (simp add: create_loop.simps[of s st now i sc rd])
      with one show ?thesis by (intro exI[of _ "Suc 0"]) simp
    next
      case (Inr c)
      show ?thesis
      proof (cases "FindByShortCode st now c")
        case (Inl e)
        with g Inr True have "snd (create_loop s st now i sc rd) = snd (candidates s rd (Suc 0))"
          by (simp add: create_loop.simps[of s st now i sc rd])
        with one show ?thesis by (intro exI[of _ "Suc 0"]) simp
      next
        case found: (Inr u)
        show ?thesis
        proof (cases "i = 4")
          case True
          with g Inr found have "snd (create_loop s st now i sc rd) = snd (candidates s rd (Suc 0))"
            by (simp add: create_loop.simps[of s st now i sc rd])
          with one show ?thesis by (intro exI[of _ "Suc 0"]) simp
        next
          case False
          from 1[OF True g[symmetric] Inr found False]
          obtain n where n: "n \<le> 5 - (i + 1)"
            and e: "snd (create_loop s st now (i + 1) c rd1) = snd (candidates s rd1 n)" by blast
          have "snd (create_loop s st now i sc rd) = snd (candidates s rd (Suc n))"
            using g Inr found False True e
            by (simp add: create_loop.simps[of s st now i sc rd] split: prod.splits)
          moreover have "Suc n \<le> 5 - i" using n True by simp
          ultimately show ?thesis by blast
        qed
      qed
    qed
  qed
qed

lemma CreateShortURL_generated:
  "CustomCode req = [] \<Longrightarrow>
   create_loop (shortener svc) (urlRepo w) now 0 [] (rand_Reader w) = (Inr c, rd') \<Longrightarrow>
   CreateShortURL svc w now req ip = CreateShortURL_store svc (w\<lparr> rand_Reader := rd' \<rparr>) now req ip c"
  by (simp add: CreateShortURL_def CreateShortURL_code_def)

lemma CreateShortURL_generated_error:
  "CustomCode req = [] \<Longrightarrow>
   create_loop (shortener svc) (urlRepo w) now 0 [] (rand_Reader w) = (Inl e, rd') \<Longrightarrow>
   CreateShortURL svc w now req ip = (Inl e, w\<lparr> rand_Reader := rd' \<rparr>)"
  by (simp add: CreateShortURL_def CreateShortURL_code_def)

lemma CreateShortURL_store_reader:
  "rand_Reader (snd (CreateShortURL_store svc w now req ip c)) = rand_Reader w"
  by (simp add: CreateShortURL_store_def Let_def split: prod.splits sum.splits)

lemma CreateShortURL_reader:
  "CustomCode req = [] \<Longrightarrow>
   rand_Reader (snd (CreateShortURL svc w now req ip)) =
     snd (create_loop (shortener svc) (urlRepo w) now 0 [] (rand_Reader w))"
proof -
  assume a: "CustomCode req = []"
  obtain r rd' where l: "create_loop (shortener svc) (urlRepo w) now 0 [] (rand_Reader w) = (r, rd')"
    by force
  show ?thesis
  proof (cases r)
    case (Inl e)
    with CreateShortURL_generated_error[OF a, of svc w now e rd' ip] l show ?thesis by simp
  next
    case (Inr c)
    with CreateShortURL_generated[OF a, of svc w now c rd' ip] l show ?thesis
      by (simp add: CreateShortURL_store_reader)
  qed
qed

lemma FindByShortCode_absent:
  "db_up st \<Longrightarrow> c \<notin> set (map ShortCode (urls st)) \<Longrightarrow> FindByShortCode st now c = Inl (ErrNotFound c)"
proof -
  assume up: "db_up st" and "c \<notin> set (map ShortCode (urls st))"
  then have "find (\<lambda>u. ShortCode u = c \<and> live u) (urls st) = None"
    by (auto simp add: find_None_iff)
  with up show ?thesis by (simp add: FindByShortCode_def)
qed

lemma CreateShortURL_store_fresh:
  assumes "db_up (urlRepo w)" and "c \<notin> set (map ShortCode (urls (urlRepo w)))"
    and "length c \<le> 20" and "length ip \<le> 45"
  shows "fst (CreateShortURL_store svc w now req ip c) =
           Inr \<lparr> ShortURL = domainName svc @ ''/'' @ c, resp_OriginalURL = req_OriginalURL req,
                 resp_ShortCode = c, resp_ExpiresAt = req_ExpiresAt req, resp_CreatedAt = now \<rparr>"
    and "urls (urlRepo (snd (CreateShortURL_store svc w now req ip c))) =
           urls (urlRepo w) @
             [\<lparr> ID = next_url_id (urlRepo w), OriginalURL = req_OriginalURL req, ShortCode = c,
                VisitCount = 0, ExpiresAt = req_ExpiresAt req, CreatedByIP = ip,
                CreatedAt = now, UpdatedAt = now, DeletedAt = None \<rparr>]"
  using assms by (simp_all add: CreateShortURL_store_def Create_def Let_def)

text \<open>
  C5. For a request without a custom code: the reader that \<open>CreateShortURL\<close> leaves is
  the one that \<open>n\<close> calls of \<open>Generate\<close> leave, for some \<open>n\<close> of at most 5; when the
  first \<open>k\<close> candidates are found by the lookup and candidate \<open>k\<close> (for \<open>k < 5\<close>) is
  not, the call goes on to the insert with candidate \<open>k\<close>, having generated \<open>k + 1\<close>
  codes; when the first candidate is the code of no row at all (and the database answers
  and the columns are wide enough), the call succeeds with that candidate after one
  \<open>Generate\<close>; and when five candidates in a row are found, the call fails with "failed to
  generate unique short code" and the world is as before but for the reader.
\<close>

theorem generated_code_allocation:
  assumes "CustomCode req = []"
  shows "(\<exists>n\<le>5. rand_Reader (snd (CreateShortURL svc w now req ip)) =
                  snd (candidates (shortener svc) (rand_Reader w) n))
    \<and> (k < 5 \<longrightarrow> candidates (shortener svc) (rand_Reader w) (Suc k) = (cs, rd') \<longrightarrow>
          length cs = Suc k \<longrightarrow>
          (\<forall>j<k. \<not> isl (FindByShortCode (urlRepo w) now (cs ! j))) \<longrightarrow>
          isl (FindByShortCode (urlRepo w) now (cs ! k)) \<longrightarrow>
          CreateShortURL svc w now req ip =
            CreateShortURL_store svc (w\<lparr> rand_Reader := rd' \<rparr>) now req ip (cs ! k))
    \<and> (Generate (shortener svc) (rand_Reader w) = (Inr c, rd1) \<longrightarrow>
          db_up (urlRepo w) \<longrightarrow> c \<notin> set (map ShortCode (urls (urlRepo w))) \<longrightarrow>
          length c \<le> 20 \<longrightarrow> length ip \<le> 45 \<longrightarrow>
          fst (CreateShortURL svc w now req ip) =
            Inr \<lparr> ShortURL = domainName svc @ ''/'' @ c, resp_OriginalURL = req_OriginalURL req,
                  resp_ShortCode = c, resp_ExpiresAt = req_ExpiresAt req, resp_CreatedAt = now \<rparr>
          \<and> rand_Reader (snd (CreateShortURL svc w now req ip)) = rd1)
    \<and> (candidates (shortener svc) (rand_Reader w) 5 = (cs5, rd5) \<longrightarrow> length cs5 = 5 \<longrightarrow>
          (\<forall>j<5. \<not> isl (FindByShortCode (urlRepo w) now (cs5 ! j))) \<longrightarrow>
          CreateShortURL svc w now req ip = (Inl ErrNoUniqueCode, w\<lparr> rand_Reader := rd5 \<rparr>))"
proof (intro conjI impI)
  show "\<exists>n\<le>5. rand_Reader (snd (CreateShortURL svc w now req ip)) =
                  snd (candidates (shortener svc) (rand_Reader w) n)"
    using create_loop_bound[of 0 "shortener svc" "urlRepo w" now "[]" "rand_Reader w"]
    by (simp add: CreateShortURL_reader[OF assms])
next
  assume "k < 5" "candidates (shortener svc) (rand_Reader w) (Suc k) = (cs, rd')"
    "length cs = Suc k" "\<forall>j<k. \<not> isl (FindByShortCode (urlRepo w) now (cs ! j))"
    "isl (FindByShortCode (urlRepo w) now (cs ! k))"
  then have "create_loop (shortener svc) (urlRepo w) now 0 [] (rand_Reader w) = (Inr (cs ! k), rd')"
    by (intro create_loop_first_free) simp_all
  then show "CreateShortURL svc w now req ip =
            CreateShortURL_store svc (w\<lparr> rand_Reader := rd' \<rparr>) now req ip (cs ! k)"
    by (rule CreateShortURL_generated[OF assms])
next
  assume g: "Generate (shortener svc) (rand_Reader w) = (Inr c, rd1)"
    and up: "db_up (urlRepo w)" and fresh: "c \<notin> set (map ShortCode (urls (urlRepo w)))"
    and len: "length c \<le> 20" "length ip \<le> 45"
  have "create_loop (shortener svc) (urlRepo w) now 0 [] (rand_Reader w) = (Inr c, rd1)"
    using FindByShortCode_absent[OF up fresh] by (intro create_loop_accept[OF _ g]) simp_all
  then have e: "CreateShortURL svc w now req ip =
            CreateShortURL_store svc (w\<lparr> rand_Reader := rd1 \<rparr>) now req ip c"
    by (rule CreateShortURL_generated[OF assms])
  show "fst (CreateShortURL svc w now req ip) =
            Inr \<lparr> ShortURL = domainName svc @ ''/'' @ c, resp_OriginalURL = req_OriginalURL req,
                  resp_ShortCode = c, resp_ExpiresAt = req_ExpiresAt req, resp_CreatedAt = now \<rparr>"
    unfolding e using up fresh len
    by (simp add: CreateShortURL_store_fresh(1))
  show "rand_Reader (snd (CreateShortURL svc w now req ip)) = rd1"
    unfolding e by (simp add: CreateShortURL_store_reader)
next
  assume "candidates (shortener svc) (rand_Reader w) 5 = (cs5, rd5)" "length cs5 = 5"
    "\<forall>j<5. \<not> isl (FindByShortCode (urlRepo w) now (cs5 ! j))"
  then have "create_loop (shortener svc) (urlRepo w) now 0 [] (rand_Reader w) = (Inl ErrNoUniqueCode, rd5)"
    by (intro create_loop_exhaust) simp_all
  then show "CreateShortURL svc w now req ip = (Inl ErrNoUniqueCode, w\<lparr> rand_Reader := rd5 \<rparr>)"
    by (rule CreateShortURL_generated_error[OF assms])
qed

theorem generated_code_allocation_witness:
  "CreateShortURL ex_svc
       (ex_world [ex_row 1 ''aaa'' 0 None] [Some 0, Some 0, Some 0, Some 1, Some 1, Some 1])
       1000 (ex_req None []) ''10.0.0.9''
     = CreateShortURL_store ex_svc (ex_world [ex_row 1 ''aaa'' 0 None] []) 1000 (ex_req None [])
         ''10.0.0.9'' ''bbb''
   \<and> fst (CreateShortURL ex_svc (ex_world [ex_row 1 ''aaa'' 0 None] [Some 1, Some 1, Some 1, Some 7])
            1000 (ex_req None []) ''10.0.0.9'')
     = Inr \<lparr> ShortURL = ''http://localhost:8000/bbb'', resp_OriginalURL = ''https://example.com/page'',
             resp_ShortCode = ''bbb'', resp_ExpiresAt = None, resp_CreatedAt = 1000 \<rparr>
   \<and> rand_Reader (snd (CreateShortURL ex_svc
            (ex_world [ex_row 1 ''aaa'' 0 None] [Some 1, Some 1, Some 1, Some 7])
            1000 (ex_req None []) ''10.0.0.9'')) = [Some 7]
   \<and> CreateShortURL ex_svc (ex_world [ex_row 1 ''aaa'' 0 None] (replicate 16 (Some 0)))
         1000 (ex_req None []) ''10.0.0.9''
     = (Inl ErrNoUniqueCode, ex_world [ex_row 1 ''aaa'' 0 None] [Some 0])"
proof -
  let ?rows = "[ex_row 1 ''aaa'' 0 None]"
  let ?w1 = "ex_world ?rows [Some 0, Some 0, Some 0, Some 1, Some 1, Some 1]"
  let ?w2 = "ex_world ?rows [Some 1, Some 1, Some 1, Some 7]"
  let ?w3 = "ex_world ?rows (replicate 16 (Some 0))"
  have nc: "CustomCode (ex_req None []) = []" by (simp add: ex_req_def)
  have st: "urlRepo (ex_world ?rows rd) = ex_store ?rows"
    and rd: "rand_Reader (ex_world ?rows rd) = rd"
    and upd: "(ex_world ?rows rd)\<lparr> rand_Reader := rd' \<rparr> = ex_world ?rows rd'" for rd rd'
    by (simp_all add: ex_world_def)
  have taken: "\<not> isl (FindByShortCode (ex_store ?rows) 1000 ''aaa'')" by code_simp
  have free: "isl (FindByShortCode (ex_store ?rows) 1000 ''bbb'')" by code_simp
  note inst = generated_code_allocation[OF nc, where svc = ex_svc and now = 1000 and ip = "''10.0.0.9''"]
  \<comment> \<open>the second candidate is the first that is free\<close>
  have c2: "candidates (shortener ex_svc) (rand_Reader ?w1) (Suc 1) = ([''aaa'', ''bbb''], [])"
    unfolding rd by code_simp
  have before: "\<forall>j<1. \<not> isl (FindByShortCode (urlRepo ?w1) 1000 ([''aaa'', ''bbb''] ! j))"
    unfolding st using taken by simp
  have at: "isl (FindByShortCode (urlRepo ?w1) 1000 ([''aaa'', ''bbb''] ! 1))"
    unfolding st using free by simp
  have a: "CreateShortURL ex_svc ?w1 1000 (ex_req None []) ''10.0.0.9''
     = CreateShortURL_store ex_svc (ex_world ?rows []) 1000 (ex_req None []) ''10.0.0.9'' ''bbb''"
    using inst[where w = ?w1 and k = 1, THEN conjunct2, THEN conjunct1, rule_format, OF _ c2 _ before[rule_format] at]
    by (simp add: upd)
  \<comment> \<open>no collision: the first attempt succeeds\<close>
  have g: "Generate (shortener ex_svc) (rand_Reader ?w2) = (Inr ''bbb'', [Some 7])"
    unfolding rd by code_simp
  have fresh: "''bbb'' \<notin> set (map ShortCode (urls (urlRepo ?w2)))"
    unfolding st by code_simp
  have up: "db_up (urlRepo ?w2)" by (simp add: st ex_store_def)
  have b: "fst (CreateShortURL ex_svc ?w2 1000 (ex_req None []) ''10.0.0.9'')
     = Inr \<lparr> ShortURL = ''http://localhost:8000/bbb'', resp_OriginalURL = ''https://example.com/page'',
             resp_ShortCode = ''bbb'', resp_ExpiresAt = None, resp_CreatedAt = 1000 \<rparr>
     \<and> rand_Reader (snd (CreateShortURL ex_svc ?w2 1000 (ex_req None []) ''10.0.0.9'')) = [Some 7]"
    using inst[where w = ?w2, THEN conjunct2, THEN conjunct2, THEN conjunct1, rule_format, OF g up fresh]
    by (simp add: ex_svc_def ex_req_def)
  \<comment> \<open>five collisions\<close>
  have c5: "candidates (shortener ex_svc) (rand_Reader ?w3) 5
              = ([''aaa'', ''aaa'', ''aaa'', ''aaa'', ''aaa''], [Some 0])"
    unfolding rd by code_simp
  have all: "\<forall>j<5. \<not> isl (FindByShortCode (urlRepo ?w3) 1000
                ([''aaa'', ''aaa'', ''aaa'', ''aaa'', ''aaa''] ! j))"
    unfolding st using taken by (simp add: nth_Cons' less_Suc_eq eval_nat_numeral)
  have c: "CreateShortURL ex_svc ?w3 1000 (ex_req None []) ''10.0.0.9''
     = (Inl ErrNoUniqueCode, ex_world ?rows [Some 0])"
    using inst[where w = ?w3, THEN conjunct2, THEN conjunct2, THEN conjunct2, rule_format, OF c5 _ all[rule_format]]
    by (simp add: upd)
  from a b c show ?thesis by blast
qed

lemma FindByShortCode_error_iff:
  "isl (FindByShortCode st now c) \<longleftrightarrow>
     (\<not> db_up st
      \<or> find (\<lambda>u. ShortCode u = c \<and> live u) (urls st) = None
      \<or> (\<exists>u e. find (\<lambda>u. ShortCode u = c \<and> live u) (urls st) = Some u \<and> ExpiresAt u = Some e \<and> e < now))"
  by (auto simp add: FindByShortCode_def split: option.splits)

text \<open>
  C10. The lookup of a candidate returns an error in three cases: the database fails, no
  live row has the code, or the live row with the code is expired. In each of them, at
  whichever of the five rounds the candidate is generated, the loop leaves with it; when
  it is the first candidate, \<open>CreateShortURL\<close> goes on to the insert with it; and with
  the database failing, the error the caller gets is the one of the insert.
\<close>

theorem lookup_error_accepts_candidate:
  assumes "Generate (shortener svc) rd = (Inr c, rd')"
      and "\<not> db_up (urlRepo w)
           \<or> find (\<lambda>u. ShortCode u = c \<and> live u) (urls (urlRepo w)) = None
           \<or> (\<exists>u e. find (\<lambda>u. ShortCode u = c \<and> live u) (urls (urlRepo w)) = Some u
                   \<and> ExpiresAt u = Some e \<and> e < now)"
  shows "isl (FindByShortCode (urlRepo w) now c)
     \<and> (\<forall>i<5. create_loop (shortener svc) (urlRepo w) now i shortCode rd = (Inr c, rd'))
     \<and> (CustomCode req = [] \<longrightarrow> rand_Reader w = rd \<longrightarrow>
          CreateShortURL svc w now req ip =
            CreateShortURL_store svc (w\<lparr> rand_Reader := rd' \<rparr>) now req ip c)
     \<and> (CustomCode req = [] \<longrightarrow> rand_Reader w = rd \<longrightarrow> \<not> db_up (urlRepo w) \<longrightarrow>
          CreateShortURL svc w now req ip =
            (Inl (ErrCreateURL ErrDatabase), w\<lparr> rand_Reader := rd' \<rparr>))"
proof -
  from assms(2) have i: "isl (FindByShortCode (urlRepo w) now c)"
    by (simp only: FindByShortCode_error_iff)
  then obtain e where e: "FindByShortCode (urlRepo w) now c = Inl e" using isl_Inl by blast
  have l: "create_loop (shortener svc) (urlRepo w) now i sc rd = (Inr c, rd')" if "i < 5" for i sc
    using that by (rule create_loop_accept[OF _ assms(1) e])
  have s: "CreateShortURL svc w now req ip =
            CreateShortURL_store svc (w\<lparr> rand_Reader := rd' \<rparr>) now req ip c"
    if "CustomCode req = []" "rand_Reader w = rd"
    using l[of 0 "[]"] that by (intro CreateShortURL_generated) simp_all
  have d: "CreateShortURL_store svc (w\<lparr> rand_Reader := rd' \<rparr>) now req ip c =
        (Inl (ErrCreateURL ErrDatabase), w\<lparr> rand_Reader := rd' \<rparr>)" if "\<not> db_up (urlRepo w)"
    using that by (simp add: CreateShortURL_store_def Create_def)
  from i l s d show ?thesis by simp
qed

theorem lookup_error_accepts_candidate_witness:
  "CreateShortURL ex_svc ((ex_world [] [Some 0, Some 1, Some 2])\<lparr> urlRepo := (ex_store [])\<lparr> db_up := False \<rparr> \<rparr>)
       1000 (ex_req None []) ''10.0.0.9''
     = (Inl (ErrCreateURL ErrDatabase),
        (ex_world [] [])\<lparr> urlRepo := (ex_store [])\<lparr> db_up := False \<rparr> \<rparr>)
   \<and> CreateShortURL ex_svc (ex_world [ex_row 1 ''abc'' 0 (Some 500)] [Some 0, Some 1, Some 2])
       1000 (ex_req None []) ''10.0.0.9''
     = CreateShortURL_store ex_svc (ex_world [ex_row 1 ''abc'' 0 (Some 500)] [])
       1000 (ex_req None []) ''10.0.0.9'' ''abc''
   \<and> CreateShortURL ex_svc (ex_world [] [Some 0, Some 1, Some 2]) 1000 (ex_req None []) ''10.0.0.9''
     = CreateShortURL_store ex_svc (ex_world [] []) 1000 (ex_req None []) ''10.0.0.9'' ''abc''
   \<and> create_loop (shortener ex_svc) (urlRepo (ex_world [] [])) 1000 4 ''aaa'' [Some 0, Some 1, Some 2]
     = (Inr ''abc'', [])"
proof -
  let ?rd = "[Some 0, Some 1, Some 2] :: reader"
  let ?down = "(ex_world [] ?rd)\<lparr> urlRepo := (ex_store [])\<lparr> db_up := False \<rparr> \<rparr>"
  let ?expired = "ex_world [ex_row 1 ''abc'' 0 (Some 500)] ?rd"
  let ?absent = "ex_world [] ?rd"
  have nc: "CustomCode (ex_req None []) = []" by (simp add: ex_req_def)
  have rd: "rand_Reader ?down = ?rd" "rand_Reader ?expired = ?rd" "rand_Reader ?absent = ?rd"
    by (simp_all add: ex_world_def)
  have g: "Generate (shortener ex_svc) ?rd = (Inr ''abc'', [])" by code_simp
  have h1: "\<not> db_up (urlRepo ?down)" by simp
  have h2: "\<exists>u e. find (\<lambda>u. ShortCode u = ''abc'' \<and> live u) (urls (urlRepo ?expired)) = Some u
     \<and> ExpiresAt u = Some e \<and> e < 1000"
    by (simp add: ex_world_def ex_store_def ex_row_def live_def)
  have h3: "find (\<lambda>u. ShortCode u = ''abc'' \<and> live u) (urls (urlRepo w)) = None"
    if "urls (urlRepo w) = []" for w :: world
    using that by simp
  have e: "urls (urlRepo (ex_world [] r)) = []" for r by (simp add: ex_world_def ex_store_def)
  note inst = lookup_error_accepts_candidate[OF g, where now = 1000 and ip = "''10.0.0.9''" and req = "ex_req None []"]
  have a: "CreateShortURL ex_svc ?down 1000 (ex_req None []) ''10.0.0.9''
     = (Inl (ErrCreateURL ErrDatabase), (ex_world [] [])\<lparr> urlRepo := (ex_store [])\<lparr> db_up := False \<rparr> \<rparr>)"
    using inst[OF disjI1[OF h1], THEN conjunct2, THEN conjunct2, THEN conjunct2, rule_format, OF nc rd(1) h1]
    by (simp add: ex_world_def)
  have b: "CreateShortURL ex_svc ?expired 1000 (ex_req None []) ''10.0.0.9''
     = CreateShortURL_store ex_svc (ex_world [ex_row 1 ''abc'' 0 (Some 500)] []) 1000 (ex_req None [])
         ''10.0.0.9'' ''abc''"
    using inst[OF disjI2[OF disjI2[OF h2]], THEN conjunct2, THEN conjunct2, THEN conjunct1, rule_format,
        OF nc rd(2)]
    by (simp add: ex_world_def)
  have c: "CreateShortURL ex_svc ?absent 1000 (ex_req None []) ''10.0.0.9''
     = CreateShortURL_store ex_svc (ex_world [] []) 1000 (ex_req None []) ''10.0.0.9'' ''abc''"
    using inst[OF disjI2[OF disjI1[OF h3[OF e]]], THEN conjunct2, THEN conjunct2, THEN conjunct1,
        rule_format, OF nc rd(3)]
    by (simp add: ex_world_def)
  have four: "(4::nat) < 5" by simp
  have d: "create_loop (shortener ex_svc) (urlRepo (ex_world [] [])) 1000 4 ''aaa'' ?rd = (Inr ''abc'', [])"
    using inst[OF disjI2[OF disjI1[OF h3[OF e]]], THEN conjunct2, THEN conjunct1, rule_format, OF four] .
  from a b c d show ?thesis by blast
qed

subsection \<open>Custom codes\<close>

text \<open>
  C1. The check of a custom code is the wrong way round. A valid custom code that no row
  uses is rejected with "custom code already in use", because the lookup returned its
  not-found error; a valid custom code that a live, unexpired row uses passes the check
  and fails only at the insert, on the unique index.
\<close>

theorem custom_code_check_inverted:
  "IsValidCustomCode (shortener ex_svc) ''mylink''
   \<and> fst (CreateShortURL ex_svc (ex_world [] []) 1000 (ex_req None ''mylink'') ''10.0.0.9'')
       = Inl ErrCustomCodeInUse
   \<and> fst (CreateShortURL ex_svc (ex_world [ex_row 1 ''mylink'' 0 None] []) 1000
            (ex_req None ''mylink'') ''10.0.0.9'')
       = Inl (ErrCreateURL ErrUniqueViolation)"
  by code_simp

section \<open>The redirect and the visit record\<close>

text \<open>
  C2. Three links, with ids 1, 2 and 3; the third, \<open>abc\<close>, has been visited once. A
  redirect of \<open>abc\<close> starts \<open>RecordVisit\<close> with \<open>urlID = 1\<close>, the visit count, and
  the visit row stored when the goroutines run refers to link 1, not to link 3. Had the
  goroutine that counts the visit run before the statistics were read, the count read
  would have been 2: not the id either.
\<close>

theorem redirect_records_visit_count:
  "fst (RedirectToOriginalURL ex_svc
          (ex_world [ex_row 1 ''first'' 5 None, ex_row 2 ''second'' 9 None, ex_row 3 ''abc'' 1 None] [])
          1000 ''abc'' ''10.0.0.9'' ''curl/8'' '''') = Redirect 302 ''https://example.com/abc''
   \<and> goroutines (snd (RedirectToOriginalURL ex_svc
          (ex_world [ex_row 1 ''first'' 5 None, ex_row 2 ''second'' 9 None, ex_row 3 ''abc'' 1 None] [])
          1000 ''abc'' ''10.0.0.9'' ''curl/8'' ''''))
       = [GoIncrementVisitCount 3, GoRecordVisit 1 ''10.0.0.9'' ''curl/8'' '''']
   \<and> map URLID (url_visits (urlRepo (run_goroutines ex_svc (snd (RedirectToOriginalURL ex_svc
          (ex_world [ex_row 1 ''first'' 5 None, ex_row 2 ''second'' 9 None, ex_row 3 ''abc'' 1 None] [])
          1000 ''abc'' ''10.0.0.9'' ''curl/8'' '''')) 1001))) = [1]
   \<and> map ID (filter (\<lambda>u. ShortCode u = ''abc'')
        (urls (ex_store [ex_row 1 ''first'' 5 None, ex_row 2 ''second'' 9 None, ex_row 3 ''abc'' 1 None])))
       = [3]
   \<and> map_sum id stats_VisitCount
        (GetURLStats ex_svc (run_goroutines ex_svc (snd (GetOriginalURL ex_svc
          (ex_world [ex_row 1 ''first'' 5 None, ex_row 2 ''second'' 9 None, ex_row 3 ''abc'' 1 None] [])
          1000 ''abc'')) 1000) 1000 ''abc'') = Inr 2"
  by code_simp

end
